theory Spec2Isabelle
  imports Complex_Main
begin

section \<open>Latent Vacuum Engine: constants and leaf functions\<close>

text \<open>
  The repository holds two variants of the engine: \<^verbatim>\<open>latent_vacuum_engine.py\<close> (1000
  cycles, a boolean latch \<^verbatim>\<open>white_hole_triggered\<close>) and the 100k-cycle script
  \<^verbatim>\<open>Latent Vacuum Engine v2.2.py\<close> (a counter \<^verbatim>\<open>white_hole_count\<close>). Both define the same
  module constants and the same four leaf functions, so each is embedded once.
  Python floats are read as real numbers and \<^verbatim>\<open>np.pi\<close> as \<^term>\<open>pi\<close>: what follows is about
  the exact value of each expression, not about its rounding, overflow or underflow.
\<close>

definition M_initial :: real where
  "M_initial = 1"

definition N_MAX :: nat where
  "N_MAX = 6"

text \<open>
  The module constant \<^verbatim>\<open>CYCLES\<close> is 1000 in latent_vacuum_engine.py and 100000 in the
  100k-cycle script; neither script reads it from anywhere else.
\<close>

definition CYCLES :: nat where
  "CYCLES = 1000"

definition CYCLES_100k :: nat where
  "CYCLES_100k = 100000"

definition T_HOM :: real where
  "T_HOM = 8 / 10"

definition DCE_DRIVE_BASE :: real where
  "DCE_DRIVE_BASE = 1 / 1000000"

definition DCE_FACTOR :: real where
  "DCE_FACTOR = 1 / (8 * pi)"

text \<open>The module constant \<^verbatim>\<open>dt\<close>; \<^verbatim>\<open>update_mass\<close> has a parameter of the same name.\<close>

definition dt_const :: real where
  "dt_const = 1"

definition M_PLANCK_CORE :: real where
  "M_PLANCK_CORE = 5 / 100"

definition WHITE_HOLE_BURST_FREQ :: real where
  "WHITE_HOLE_BURST_FREQ = 1"

definition measure_hom_visibility :: "real \<Rightarrow> real" where
  "measure_hom_visibility T = T"

definition apply_dce_drive :: "real \<Rightarrow> real \<Rightarrow> real" where
  "apply_dce_drive V M = (if M \<le> 0 then 0 else DCE_DRIVE_BASE * V / (M ^ 3))"

definition compute_dNdt :: "real \<Rightarrow> real" where
  "compute_dNdt f_dot = f_dot ^ 2 * DCE_FACTOR"

definition update_mass :: "real \<Rightarrow> real \<Rightarrow> real \<Rightarrow> real" where
  "update_mass M dNdt dt =
     (if M \<le> M_PLANCK_CORE then M
      else (let dMdt = - 1 / (15360 * pi * M ^ 2) in M + dMdt * dt))"

section \<open>State generator and area observable\<close>

text \<open>
  The generator builds a \<^verbatim>\<open>qutip.Qobj\<close>. The library is not part of the repository; the
  model keeps what the repository's code reads from such an object (\<^verbatim>\<open>dims\<close>, the two lists
  of subsystem dimensions, and \<^verbatim>\<open>type\<close>, which the library derives from them) together
  with the amplitude vector. An exception raised inside the library is the value \<open>Inl e\<close>,
  with \<open>e\<close> the Python exception class. \<open>InvalidInput\<close> is the error class of the
  specification's taxonomy; no statement of the source raises it.
\<close>

datatype error = IndexError | TypeError | ValueError | InvalidInput

datatype qobj_type = Ket | Bra | Oper | Other

record qobj =
  dims0 :: "nat list"
  dims1 :: "nat list"
  amps :: "real list"

text \<open>
  \<^verbatim>\<open>psi.type\<close>, as the library (version 4) computes it from \<^verbatim>\<open>dims\<close>: an object whose row
  dimensions multiply to 1 is a \<^verbatim>\<open>'bra'\<close>, otherwise one whose column dimensions multiply to 1
  is a \<^verbatim>\<open>'ket'\<close>. So a \<open>1 \<times> 1\<close> object is reported as \<^verbatim>\<open>'bra'\<close> (version 5 of the library
  calls it \<^verbatim>\<open>'scalar'\<close>): in neither version is it a \<^verbatim>\<open>'ket'\<close>.
\<close>

definition qtype :: "qobj \<Rightarrow> qobj_type" where
  "qtype q =
     (if prod_list (dims0 q) = 1 then Bra
      else if prod_list (dims1 q) = 1 then Ket
      else if dims0 q = dims1 q then Oper
      else Other)"

text \<open>\<^verbatim>\<open>qt.fock(N, k)\<close>, also called \<^verbatim>\<open>qt.basis\<close>: the k-th basis vector of an N-level system.\<close>

definition fock :: "nat \<Rightarrow> nat \<Rightarrow> error + qobj" where
  "fock N k =
     (if N \<le> k then Inl ValueError
      else Inr \<lparr>dims0 = [N], dims1 = [1],
                amps = map (\<lambda>i. if i = k then 1 else 0) [0..<N]\<rparr>)"

definition basis :: "nat \<Rightarrow> nat \<Rightarrow> error + qobj" where
  "basis N k = fock N k"

definition kron :: "qobj \<Rightarrow> qobj \<Rightarrow> qobj" where
  "kron a b =
     \<lparr>dims0 = dims0 a @ dims0 b, dims1 = dims1 a @ dims1 b,
      amps = concat (map (\<lambda>x. map (\<lambda>y. x * y) (amps b)) (amps a))\<rparr>"

text \<open>
  \<^verbatim>\<open>qt.tensor(qlist)\<close>: the library reads \<^verbatim>\<open>qlist[0]\<close> before anything else, so an empty
  list raises Python's \<^verbatim>\<open>IndexError\<close>.
\<close>

fun tensor :: "qobj list \<Rightarrow> error + qobj" where
  "tensor [] = Inl IndexError"
| "tensor (q # qs) = Inr (foldl kron q qs)"

text \<open>\<^verbatim>\<open>a + b\<close> on two objects: the library raises \<^verbatim>\<open>TypeError\<close> on different dimensions.\<close>

definition qadd :: "qobj \<Rightarrow> qobj \<Rightarrow> error + qobj" where
  "qadd a b =
     (if dims0 a = dims0 b \<and> dims1 a = dims1 b
      then Inr \<lparr>dims0 = dims0 a, dims1 = dims1 a, amps = map2 (+) (amps a) (amps b)\<rparr>
      else Inl TypeError)"

text \<open>\<^verbatim>\<open>psi.unit()\<close>: the object divided by its 2-norm.\<close>

definition unit_q :: "qobj \<Rightarrow> qobj" where
  "unit_q a =
     (let nrm = sqrt (sum_list (map (\<lambda>x. x ^ 2) (amps a)))
      in a\<lparr>amps := map (\<lambda>x. x / nrm) (amps a)\<rparr>)"

text \<open>
  The body shared by \<^verbatim>\<open>generate_ghz_full\<close> (latent_vacuum_engine.py), \<^verbatim>\<open>latent_state\<close>
  (Wieger_3.py) and \<^verbatim>\<open>ghz_state\<close>: the three are the same code. Python's \<^verbatim>\<open>[zero] * n\<close>
  is the empty list for \<open>n \<le> 0\<close>, hence \<^term>\<open>nat n\<close>.
\<close>

definition generate_ghz_full :: "int \<Rightarrow> error + qobj" where
  "generate_ghz_full n =
     (if n = 0 then fock 1 0
      else
        (case basis 2 0 of Inl e \<Rightarrow> Inl e | Inr zero \<Rightarrow>
        (case basis 2 1 of Inl e \<Rightarrow> Inl e | Inr one \<Rightarrow>
        (case tensor (replicate (nat n) zero) of Inl e \<Rightarrow> Inl e | Inr a \<Rightarrow>
        (case tensor (replicate (nat n) one) of Inl e \<Rightarrow> Inl e | Inr b \<Rightarrow>
        (case qadd a b of Inl e \<Rightarrow> Inl e | Inr state \<Rightarrow> Inr (unit_q state)))))))"

definition latent_state :: "int \<Rightarrow> error + qobj" where
  "latent_state n =
     (if n = 0 then fock 1 0
      else
        (case basis 2 0 of Inl e \<Rightarrow> Inl e | Inr zero \<Rightarrow>
        (case tensor (replicate (nat n) zero) of Inl e \<Rightarrow> Inl e | Inr a \<Rightarrow>
        (case basis 2 1 of Inl e \<Rightarrow> Inl e | Inr one \<Rightarrow>
        (case tensor (replicate (nat n) one) of Inl e \<Rightarrow> Inl e | Inr b \<Rightarrow>
        (case qadd a b of Inl e \<Rightarrow> Inl e | Inr state \<Rightarrow> Inr (unit_q state)))))))"

text \<open>
  \<^verbatim>\<open>n_modes = len(psi.dims[0]) if psi.type == 'ket' else 0\<close>, then
  \<^verbatim>\<open>max(n_modes, 1) * 2 * np.pi\<close>.
\<close>

definition compute_total_wigner_area :: "qobj \<Rightarrow> real" where
  "compute_total_wigner_area psi =
     (let n_modes = (if qtype psi = Ket then length (dims0 psi) else 0)
      in real (max n_modes 1) * 2 * pi)"

text \<open>The loop's expression \<^verbatim>\<open>max(n, 1) * 2 * np.pi\<close> for the expected area.\<close>

definition area_expected_of :: "int \<Rightarrow> real" where
  "area_expected_of n = real_of_int (max n 1) * 2 * pi"

section \<open>The simulation engines\<close>

text \<open>
  The \<^verbatim>\<open>anomaly\<close> string of a cycle is a concatenation of tokens, each followed by a
  blank; it is kept as the list of its tokens, in the order they are appended.
\<close>

datatype tag =
  VACUUM_STRUCTURE_DRIFT | DCE_FLUX_ANOMALY | PLANCK_CORE_SATURATION | WHITE_HOLE_BURST
  | AREA_DRIFT | DCE_ANOMALY

fun tag_text :: "tag \<Rightarrow> string" where
  "tag_text VACUUM_STRUCTURE_DRIFT = ''VACUUM_STRUCTURE_DRIFT''"
| "tag_text DCE_FLUX_ANOMALY = ''DCE_FLUX_ANOMALY''"
| "tag_text PLANCK_CORE_SATURATION = ''PLANCK_CORE_SATURATION''"
| "tag_text WHITE_HOLE_BURST = ''WHITE_HOLE_BURST''"
| "tag_text AREA_DRIFT = ''AREA_DRIFT''"
| "tag_text DCE_ANOMALY = ''DCE_ANOMALY''"

definition anomaly_string :: "tag list \<Rightarrow> string" where
  "anomaly_string ts = concat (map (\<lambda>t. tag_text t @ '' '') ts)"

text \<open>One row of the log: the values written by \<^verbatim>\<open>writer.writerow\<close>, before formatting.\<close>

record cycle_record =
  rec_cycle :: nat
  rec_n :: int
  rec_area_sim :: real
  rec_area_expected :: real
  rec_V_hom :: real
  rec_f_dot :: real
  rec_dNdt :: real
  rec_dMdt :: real
  rec_M :: real
  rec_anomaly :: "tag list"

text \<open>
  The loop's \<^verbatim>\<open>M_new\<close> as a function of the current mass (visibility, drive, flux, then
  \<^verbatim>\<open>update_mass\<close> with the module's \<^verbatim>\<open>dt\<close>); the same four lines in both engines.
\<close>

definition M_new_of :: "real \<Rightarrow> real" where
  "M_new_of M =
     (let V = measure_hom_visibility T_HOM;
          f_dot = apply_dce_drive V M;
          dNdt = compute_dNdt f_dot
      in update_mass M dNdt dt_const)"

subsection \<open>latent_vacuum_engine.py: the latch variant\<close>

text \<open>
  The loop variables \<^verbatim>\<open>M\<close>, \<^verbatim>\<open>white_hole_triggered\<close> and the list \<^verbatim>\<open>anomalies\<close> (one entry
  per burst line: the cycle index and the emission frequency printed in it).
\<close>

record lve_state =
  lve_M :: real
  white_hole_triggered :: bool
  lve_anomalies :: "(nat \<times> real) list"

definition lve_init :: lve_state where
  "lve_init = \<lparr>lve_M = M_initial, white_hole_triggered = False, lve_anomalies = []\<rparr>"

text \<open>
  One iteration of the loop body, for the cycle index and the value \<open>n\<close> drawn by
  \<^verbatim>\<open>np.random.randint(0, N_MAX + 1)\<close>. An exception of the generator leaves the loop.
\<close>

definition lve_cycle :: "lve_state \<Rightarrow> nat \<Rightarrow> nat \<Rightarrow> error + (lve_state \<times> cycle_record)" where
  "lve_cycle st cycle n =
     (case generate_ghz_full (int n) of
        Inl e \<Rightarrow> Inl e
      | Inr psi \<Rightarrow>
         (let area_sim = compute_total_wigner_area psi;
              area_expected = area_expected_of (int n);
              V = measure_hom_visibility T_HOM;
              f_dot = apply_dce_drive V (lve_M st);
              dNdt = compute_dNdt f_dot;
              M_new = update_mass (lve_M st) dNdt dt_const;
              dMdt = (M_new - lve_M st) / dt_const;
              a1 = (if \<bar>area_sim - area_expected\<bar> > 1 / 10 ^ 10
                    then [VACUUM_STRUCTURE_DRIFT] else []);
              a2 = a1 @ (if dNdt > 1 / 10 ^ 6 then [DCE_FLUX_ANOMALY] else []);
              burst = (M_new \<le> M_PLANCK_CORE \<and> \<not> white_hole_triggered st);
              a3 = a2 @ (if burst then [PLANCK_CORE_SATURATION, WHITE_HOLE_BURST] else []);
              st' = (if burst
                     then \<lparr>lve_M = M_initial, white_hole_triggered = True,
                           lve_anomalies = lve_anomalies st @ [(cycle, WHITE_HOLE_BURST_FREQ)]\<rparr>
                     else st\<lparr>lve_M := M_new\<rparr>)
          in Inr (st',
                  \<lparr>rec_cycle = cycle, rec_n = int n, rec_area_sim = area_sim,
                   rec_area_expected = area_expected, rec_V_hom = V, rec_f_dot = f_dot,
                   rec_dNdt = dNdt, rec_dMdt = dMdt, rec_M = lve_M st',
                   rec_anomaly = a3\<rparr>)))"

text \<open>
  The state and the log after the first \<open>k\<close> iterations of \<^verbatim>\<open>for cycle in range(CYCLES)\<close>;
  \<open>draws i\<close> is the value \<^verbatim>\<open>np.random.randint(0, N_MAX + 1)\<close> returns in cycle \<open>i\<close> (at most
  \<open>N_MAX\<close>; nothing below depends on that bound).
\<close>

primrec lve_run :: "(nat \<Rightarrow> nat) \<Rightarrow> nat \<Rightarrow> error + (lve_state \<times> cycle_record list)" where
  "lve_run draws 0 = Inr (lve_init, [])"
| "lve_run draws (Suc k) =
     (case lve_run draws k of
        Inl e \<Rightarrow> Inl e
      | Inr (st, rows) \<Rightarrow>
         (case lve_cycle st k (draws k) of
            Inl e \<Rightarrow> Inl e
          | Inr (st', r) \<Rightarrow> Inr (st', rows @ [r])))"

text \<open>
  The script itself: all \<open>CYCLES\<close> iterations. It never calls \<^verbatim>\<open>np.random.seed\<close>, so the
  values its generator returns are those of the stream the library set up from the
  operating system's entropy when it was imported: \<open>ambient\<close>, an input of the run.
\<close>

definition lve_main :: "(nat \<Rightarrow> nat) \<Rightarrow> error + (lve_state \<times> cycle_record list)" where
  "lve_main ambient = lve_run ambient CYCLES"

subsection \<open>Latent Vacuum Engine v2.2.py (100k cycles): the counter variant\<close>

text \<open>
  The loop variables \<^verbatim>\<open>M\<close>, \<^verbatim>\<open>white_hole_count\<close> and \<^verbatim>\<open>anomalies\<close> (cycle index, burst
  number and frequency of each line).
\<close>

record lve100k_state =
  cnt_M :: real
  white_hole_count :: nat
  cnt_anomalies :: "(nat \<times> nat \<times> real) list"

definition lve100k_init :: lve100k_state where
  "lve100k_init = \<lparr>cnt_M = M_initial, white_hole_count = 0, cnt_anomalies = []\<rparr>"

definition lve100k_cycle :: "lve100k_state \<Rightarrow> nat \<Rightarrow> nat \<Rightarrow> lve100k_state \<times> cycle_record" where
  "lve100k_cycle st cycle n =
     (let area_expected = area_expected_of (int n);
          area_sim = area_expected;
          V = measure_hom_visibility T_HOM;
          f_dot = apply_dce_drive V (cnt_M st);
          dNdt = compute_dNdt f_dot;
          M_new = update_mass (cnt_M st) dNdt dt_const;
          dMdt = (M_new - cnt_M st) / dt_const;
          a1 = (if \<bar>area_sim - area_expected\<bar> > 1 / 10 ^ 10 then [AREA_DRIFT] else []);
          a2 = a1 @ (if dNdt > 1 / 10 ^ 6 then [DCE_ANOMALY] else []);
          burst = (M_new \<le> M_PLANCK_CORE);
          a3 = a2 @ (if burst then [WHITE_HOLE_BURST] else []);
          st' = (if burst
                 then \<lparr>cnt_M = M_initial, white_hole_count = white_hole_count st + 1,
                       cnt_anomalies = cnt_anomalies st @
                         [(cycle, white_hole_count st + 1, WHITE_HOLE_BURST_FREQ)]\<rparr>
                 else st\<lparr>cnt_M := M_new\<rparr>)
      in (st',
          \<lparr>rec_cycle = cycle, rec_n = int n, rec_area_sim = area_sim,
           rec_area_expected = area_expected, rec_V_hom = V, rec_f_dot = f_dot,
           rec_dNdt = dNdt, rec_dMdt = dMdt, rec_M = cnt_M st',
           rec_anomaly = a3\<rparr>))"

primrec lve100k_run :: "(nat \<Rightarrow> nat) \<Rightarrow> nat \<Rightarrow> lve100k_state \<times> cycle_record list" where
  "lve100k_run draws 0 = (lve100k_init, [])"
| "lve100k_run draws (Suc k) =
     (case lve100k_run draws k of
        (st, rows) \<Rightarrow>
          (case lve100k_cycle st k (draws k) of (st', r) \<Rightarrow> (st', rows @ [r])))"

text \<open>
  The script itself: \<^verbatim>\<open>np.random.seed(42)\<close> before the loop, then all its \<open>CYCLES\<close>
  iterations. The call replaces the generator's stream, whatever it was (\<open>ambient\<close>), by
  the stream the library derives from the seed: \<open>seeded s i\<close> is the value
  \<^verbatim>\<open>np.random.randint(0, N_MAX + 1)\<close> returns at its \<open>i\<close>-th call after \<^verbatim>\<open>np.random.seed(s)\<close>.
\<close>

definition lve100k_main ::
  "(nat \<Rightarrow> nat \<Rightarrow> nat) \<Rightarrow> (nat \<Rightarrow> nat) \<Rightarrow> lve100k_state \<times> cycle_record list" where
  "lve100k_main seeded ambient = lve100k_run (seeded 42) CYCLES_100k"

text \<open>
  The least amount one evaporation step removes from a mass in \<open>(M_PLANCK_CORE, 1]\<close> with
  the module's \<^verbatim>\<open>dt\<close>; used to bound the number of cycles before a crossing.
\<close>

definition decay_unit :: real where
  "decay_unit = 1 / (15360 * pi)"

section \<open>Leaf function properties\<close>

lemma core_pos: "0 < M_PLANCK_CORE"
  by (simp add: M_PLANCK_CORE_def)

lemma decay_term_pos:
  assumes "M_PLANCK_CORE < M"
  shows "0 < 1 / (15360 * pi * M ^ 2)"
proof -
  from assms core_pos have "0 < M" by linarith
  then have "0 < 15360 * pi * M ^ 2" by simp
  then show ?thesis by simp
qed

text \<open>
  C5. The flux-rate argument of \<^verbatim>\<open>update_mass\<close> is never read: any two flux rates give
  the same new mass.
\<close>

theorem update_mass_ignores_flux:
  "update_mass M f1 dt = update_mass M f2 dt"
  by (simp add: update_mass_def)

section \<open>The generator on valid and invalid mode counts\<close>

lemma foldl_kron_dims0: "dims0 (foldl kron q qs) = dims0 q @ concat (map dims0 qs)"
  by (induction qs arbitrary: q) (simp_all add: kron_def)

lemma foldl_kron_dims1: "dims1 (foldl kron q qs) = dims1 q @ concat (map dims1 qs)"
  by (induction qs arbitrary: q) (simp_all add: kron_def)

lemma concat_replicate_single: "concat (replicate k [x]) = replicate k x"
  by (induction k) simp_all

lemma prod_list_replicate_nat: "prod_list (replicate k (a :: nat)) = a ^ k"
  by (induction k) simp_all

lemma qtype_ket:
  assumes "dims0 q = replicate (Suc m) 2" and "dims1 q = replicate (Suc m) 1"
  shows "qtype q = Ket"
proof -
  have "(2 :: nat) * 2 ^ m \<noteq> 1" by simp
  with assms show ?thesis
    by (simp add: qtype_def prod_list_replicate_nat del: replicate_Suc)
qed

lemma generate_zero: "generate_ghz_full 0 = Inr \<lparr>dims0 = [1], dims1 = [1], amps = [1]\<rparr>"
  by (simp add: generate_ghz_full_def fock_def)

lemma placeholder_type: "qtype \<lparr>dims0 = [1], dims1 = [1], amps = [1]\<rparr> = Bra"
  by (simp add: qtype_def)

lemma generate_pos:
  assumes "0 < n"
  shows "\<exists>psi. generate_ghz_full n = Inr psi \<and> dims0 psi = replicate (nat n) 2 \<and>
    qtype psi = Ket"
proof (cases "nat n")
  case 0
  with assms show ?thesis by simp
next
  case (Suc m)
  with assms obtain psi where g: "generate_ghz_full n = Inr psi"
    and d0: "dims0 psi = replicate (Suc m) 2" and d1: "dims1 psi = replicate (Suc m) 1"
    by (simp add: generate_ghz_full_def basis_def fock_def qadd_def unit_q_def Let_def
        foldl_kron_dims0 foldl_kron_dims1 concat_replicate_single)
  from qtype_ket [OF d0 d1] g d0 Suc show ?thesis by simp
qed

lemma generate_neg: "n < 0 \<Longrightarrow> generate_ghz_full n = Inl IndexError"
  by (simp add: generate_ghz_full_def basis_def fock_def)

lemma generate_area:
  assumes "0 \<le> n"
  shows "\<exists>psi. generate_ghz_full n = Inr psi \<and> compute_total_wigner_area psi = area_expected_of n"
proof (cases "n = 0")
  case True
  then show ?thesis
    by (simp add: generate_zero placeholder_type compute_total_wigner_area_def
        area_expected_of_def)
next
  case False
  with assms have pos: "0 < n" by simp
  then obtain psi where g: "generate_ghz_full n = Inr psi"
    and d: "dims0 psi = replicate (nat n) 2" and t: "qtype psi = Ket"
    using generate_pos by blast
  from pos have "real (max (nat n) 1) = real_of_int (max n 1)"
    by (auto simp: max_def)
  with d t have "compute_total_wigner_area psi = area_expected_of n"
    by (simp add: compute_total_wigner_area_def area_expected_of_def)
  with g show ?thesis by blast
qed

lemma M_new_of_eq:
  "M_new_of M = (if M \<le> M_PLANCK_CORE then M else M - 1 / (15360 * pi * M ^ 2))"
  by (simp add: M_new_of_def update_mass_def dt_const_def Let_def)

lemma lve_cycle_result:
  "\<exists>st' r. lve_cycle st c n = Inr (st', r) \<and>
     lve_M st' = (if M_new_of (lve_M st) \<le> M_PLANCK_CORE \<and> \<not> white_hole_triggered st
                  then M_initial else M_new_of (lve_M st)) \<and>
     white_hole_triggered st' =
       (white_hole_triggered st \<or> M_new_of (lve_M st) \<le> M_PLANCK_CORE) \<and>
     lve_anomalies st' =
       (if M_new_of (lve_M st) \<le> M_PLANCK_CORE \<and> \<not> white_hole_triggered st
        then lve_anomalies st @ [(c, WHITE_HOLE_BURST_FREQ)] else lve_anomalies st) \<and>
     (WHITE_HOLE_BURST \<in> set (rec_anomaly r)) =
       (M_new_of (lve_M st) \<le> M_PLANCK_CORE \<and> \<not> white_hole_triggered st) \<and>
     VACUUM_STRUCTURE_DRIFT \<notin> set (rec_anomaly r) \<and>
     rec_area_sim r = rec_area_expected r \<and>
     rec_M r = lve_M st' \<and> rec_cycle r = c \<and> rec_n r = int n"
proof -
  obtain psi where g: "generate_ghz_full (int n) = Inr psi"
    and a: "compute_total_wigner_area psi = area_expected_of (int n)"
    using generate_area [of "int n"] by auto
  show ?thesis
    by (auto simp: lve_cycle_def g a M_new_of_def Let_def)
qed

lemma lve100k_cycle_result:
  "\<exists>st' r. lve100k_cycle st c n = (st', r) \<and>
     cnt_M st' = (if M_new_of (cnt_M st) \<le> M_PLANCK_CORE then M_initial
                  else M_new_of (cnt_M st)) \<and>
     white_hole_count st' =
       (if M_new_of (cnt_M st) \<le> M_PLANCK_CORE then white_hole_count st + 1
        else white_hole_count st) \<and>
     (WHITE_HOLE_BURST \<in> set (rec_anomaly r)) = (M_new_of (cnt_M st) \<le> M_PLANCK_CORE) \<and>
     AREA_DRIFT \<notin> set (rec_anomaly r) \<and>
     rec_area_sim r = rec_area_expected r \<and>
     rec_M r = cnt_M st' \<and> rec_cycle r = c \<and> rec_n r = int n"
  by (simp add: lve100k_cycle_def M_new_of_def Let_def)

section \<open>Runs: totality, prefixes and the first crossing\<close>

lemma lve_run_Suc:
  assumes "lve_run d k = Inr (st, rows)"
  shows "\<exists>st' r. lve_cycle st k (d k) = Inr (st', r) \<and> lve_run d (Suc k) = Inr (st', rows @ [r])"
proof -
  obtain st' r where "lve_cycle st k (d k) = Inr (st', r)"
    using lve_cycle_result [of st k "d k"] by blast
  with assms show ?thesis by simp
qed

lemma lve_run_total: "\<exists>st rows. lve_run d k = Inr (st, rows) \<and> length rows = k"
proof (induction k)
  case 0
  show ?case by simp
next
  case (Suc k)
  then obtain st rows where r: "lve_run d k = Inr (st, rows)" and l: "length rows = k"
    by blast
  from lve_run_Suc [OF r] l show ?case by auto
qed

lemma lve_run_prefix:
  assumes "lve_run d k = Inr (st, rows)" and "lve_run d (k + j) = Inr (st', rows')"
  shows "take k rows' = rows \<and> length rows = k"
  using assms
proof (induction j arbitrary: st' rows')
  case 0
  with lve_run_total [of d k] show ?case by auto
next
  case (Suc j)
  obtain st1 rows1 where r1: "lve_run d (k + j) = Inr (st1, rows1)" and l1: "length rows1 = k + j"
    using lve_run_total [of d "k + j"] by blast
  from Suc.IH [OF Suc.prems(1) r1] have t: "take k rows1 = rows" and l: "length rows = k"
    by simp_all
  from lve_run_Suc [OF r1] Suc.prems(2) obtain r where "rows' = rows1 @ [r]"
    by auto
  with t l l1 show ?case by simp
qed

lemma M_new_of_le: "M_new_of M \<le> M"
proof (cases "M \<le> M_PLANCK_CORE")
  case True
  then show ?thesis by (simp add: M_new_of_eq)
next
  case False
  then have "0 < 1 / (15360 * pi * M ^ 2)" using decay_term_pos [of M] by simp
  with False show ?thesis by (simp add: M_new_of_eq)
qed

lemma M_new_of_drop:
  assumes "M_PLANCK_CORE < M" and "M \<le> 1"
  shows "M_new_of M \<le> M - decay_unit"
proof -
  from assms core_pos have pos: "0 < M" by linarith
  with assms have "M ^ 2 \<le> 1" by (simp add: power_le_one)
  then have "15360 * pi * M ^ 2 \<le> 15360 * pi" by simp
  moreover from pos have "0 < 15360 * pi * M ^ 2" by simp
  ultimately have "1 / (15360 * pi) \<le> 1 / (15360 * pi * M ^ 2)"
    by (intro divide_left_mono) simp_all
  with assms show ?thesis by (simp add: M_new_of_eq decay_unit_def)
qed

lemma descent:
  "M \<le> M_PLANCK_CORE + real n * decay_unit \<Longrightarrow> M \<le> 1 \<Longrightarrow>
     \<exists>k\<le>n. (M_new_of ^^ k) M \<le> M_PLANCK_CORE"
proof (induction n arbitrary: M)
  case 0
  then have "(M_new_of ^^ 0) M \<le> M_PLANCK_CORE" by simp
  then show ?case by blast
next
  case (Suc n)
  show ?case
  proof (cases "M \<le> M_PLANCK_CORE")
    case True
    then have "(M_new_of ^^ 0) M \<le> M_PLANCK_CORE" by simp
    then show ?thesis by blast
  next
    case False
    then have d: "M_new_of M \<le> M - decay_unit" using M_new_of_drop Suc.prems(2) by simp
    with Suc.prems(1) have "M_new_of M \<le> M_PLANCK_CORE + real n * decay_unit"
      by (simp add: algebra_simps)
    moreover from M_new_of_le [of M] Suc.prems(2) have "M_new_of M \<le> 1" by linarith
    ultimately obtain k where k: "k \<le> n"
      and c: "(M_new_of ^^ k) (M_new_of M) \<le> M_PLANCK_CORE"
      using Suc.IH by blast
    from c have "(M_new_of ^^ Suc k) M \<le> M_PLANCK_CORE" by (simp add: funpow_swap1)
    with k show ?thesis by (intro exI [of _ "Suc k"]) simp
  qed
qed

lemma decay_unit_lower: "1 / 61440 < decay_unit"
proof -
  have "15360 * pi < 61440" using pi_less_4 by simp
  then have "1 / 61440 < 1 / (15360 * pi)"
    by (intro divide_strict_left_mono) simp_all
  then show ?thesis by (simp add: decay_unit_def)
qed

text \<open>
  From \<open>M_initial\<close> the mass reaches the core floor for the first time after fewer than
  58368 steps: each step above the floor removes more than \<open>1 / 61440\<close>.
\<close>

lemma first_crossing:
  "\<exists>K<58368. (M_new_of ^^ Suc K) M_initial \<le> M_PLANCK_CORE \<and>
       (\<forall>i\<le>K. M_PLANCK_CORE < (M_new_of ^^ i) M_initial)"
proof -
  have "95 / 100 = 58368 * (1 / 61440 :: real)" by simp
  also have "\<dots> \<le> 58368 * decay_unit" using decay_unit_lower by simp
  finally have "1 - M_PLANCK_CORE \<le> real 58368 * decay_unit"
    by (simp add: M_PLANCK_CORE_def)
  then have "M_initial \<le> M_PLANCK_CORE + real 58368 * decay_unit" "M_initial \<le> 1"
    by (simp_all add: M_initial_def)
  then obtain k0 where k0: "k0 \<le> 58368"
    and c0: "(M_new_of ^^ k0) M_initial \<le> M_PLANCK_CORE"
    using descent [of M_initial 58368] by blast
  define L where "L = (LEAST k. (M_new_of ^^ k) M_initial \<le> M_PLANCK_CORE)"
  from c0 have L1: "(M_new_of ^^ L) M_initial \<le> M_PLANCK_CORE"
    unfolding L_def by (rule LeastI)
  from c0 have "L \<le> k0" unfolding L_def by (rule Least_le)
  with k0 have Lb: "L \<le> 58368" by simp
  have L2: "M_PLANCK_CORE < (M_new_of ^^ i) M_initial" if "i < L" for i
    using not_less_Least [of i "\<lambda>k. (M_new_of ^^ k) M_initial \<le> M_PLANCK_CORE"] that
    unfolding L_def by simp
  have "L \<noteq> 0"
  proof
    assume "L = 0"
    with L1 show False by (simp add: M_initial_def M_PLANCK_CORE_def)
  qed
  then obtain K where K: "L = Suc K" by (cases L) simp_all
  with Lb have "K < 58368" by simp
  moreover from K L1 have "(M_new_of ^^ Suc K) M_initial \<le> M_PLANCK_CORE" by simp
  moreover from K L2 have "\<forall>i\<le>K. M_PLANCK_CORE < (M_new_of ^^ i) M_initial" by simp
  ultimately show ?thesis by blast
qed

lemma lve100k_run_Suc:
  assumes "lve100k_run d k = (st, rows)"
  shows "\<exists>st' r. lve100k_cycle st k (d k) = (st', r) \<and> lve100k_run d (Suc k) = (st', rows @ [r])"
proof -
  obtain st' r where "lve100k_cycle st k (d k) = (st', r)"
    by (cases "lve100k_cycle st k (d k)")
  with assms show ?thesis by simp
qed

lemma lve100k_run_length: "length (snd (lve100k_run d k)) = k"
proof (induction k)
  case 0
  show ?case by simp
next
  case (Suc k)
  obtain st rows where r: "lve100k_run d k = (st, rows)" by (cases "lve100k_run d k")
  from lve100k_run_Suc [OF r] Suc r show ?case by auto
qed

lemma lve100k_phase1:
  "(\<forall>i\<le>j. M_PLANCK_CORE < (M_new_of ^^ i) M_initial) \<Longrightarrow>
     cnt_M (fst (lve100k_run d j)) = (M_new_of ^^ j) M_initial"
proof (induction j)
  case 0
  show ?case by (simp add: lve100k_init_def)
next
  case (Suc j)
  obtain st rows where r: "lve100k_run d j = (st, rows)" by (cases "lve100k_run d j")
  with Suc have m: "cnt_M st = (M_new_of ^^ j) M_initial" by simp
  from Suc.prems have above: "M_PLANCK_CORE < M_new_of (cnt_M st)"
    using m by (auto dest: spec [of _ "Suc j"])
  from lve100k_run_Suc [OF r] obtain st' r' where c: "lve100k_cycle st j (d j) = (st', r')"
    and r': "lve100k_run d (Suc j) = (st', rows @ [r'])" by blast
  from lve100k_cycle_result [of st j "d j"] c above m
  have "cnt_M st' = (M_new_of ^^ Suc j) M_initial" by auto
  with r' show ?case by simp
qed

text \<open>
  The counter variant meets its first crossing within its \<open>CYCLES_100k\<close> cycles, whatever
  the draws.
\<close>

lemma lve100k_first_burst:
  "\<exists>K st rows st' r. K < CYCLES_100k \<and> lve100k_run d K = (st, rows) \<and>
     M_PLANCK_CORE < cnt_M st \<and> M_new_of (cnt_M st) \<le> M_PLANCK_CORE \<and>
     lve100k_run d (Suc K) = (st', rows @ [r]) \<and> length rows = K \<and>
     cnt_M st' = M_initial \<and> white_hole_count st' = white_hole_count st + 1 \<and>
     WHITE_HOLE_BURST \<in> set (rec_anomaly r)"
proof -
  obtain K where K0: "K < 58368"
    and K1: "(M_new_of ^^ Suc K) M_initial \<le> M_PLANCK_CORE"
    and K2: "\<forall>i\<le>K. M_PLANCK_CORE < (M_new_of ^^ i) M_initial"
    using first_crossing by blast
  from K0 have Kb: "K < CYCLES_100k" by (simp add: CYCLES_100k_def)
  obtain st rows where r: "lve100k_run d K = (st, rows)" by (cases "lve100k_run d K")
  with lve100k_phase1 [OF K2, of d] have m: "cnt_M st = (M_new_of ^^ K) M_initial" by simp
  from K2 m have above: "M_PLANCK_CORE < cnt_M st" by simp
  from K1 m have cross: "M_new_of (cnt_M st) \<le> M_PLANCK_CORE" by simp
  from lve100k_run_Suc [OF r] obtain st' r' where c: "lve100k_cycle st K (d K) = (st', r')"
    and r': "lve100k_run d (Suc K) = (st', rows @ [r'])" by blast
  from lve100k_run_length [of d K] r have len: "length rows = K" by simp
  from lve100k_cycle_result [of st K "d K"] c cross
  have "cnt_M st' = M_initial \<and> white_hole_count st' = white_hole_count st + 1 \<and>
     WHITE_HOLE_BURST \<in> set (rec_anomaly r')"
    by auto
  with Kb r above cross r' len show ?thesis by blast
qed

section \<open>Rows of a run, the generator claims and determinism\<close>

lemma latent_state_eq: "latent_state n = generate_ghz_full n"
  by (simp add: latent_state_def generate_ghz_full_def basis_def fock_def split: sum.splits)

lemma lve_row:
  assumes "lve_run d k = Inr (st, rows)" and "j < k"
  shows "\<exists>sj rowsj sj'. lve_run d j = Inr (sj, rowsj) \<and>
           lve_cycle sj j (d j) = Inr (sj', rows ! j) \<and>
           lve_run d (Suc j) = Inr (sj', rowsj @ [rows ! j])"
proof -
  obtain sj rowsj where rj: "lve_run d j = Inr (sj, rowsj)" and lj: "length rowsj = j"
    using lve_run_total [of d j] by blast
  from lve_run_Suc [OF rj] obtain sj' r where c: "lve_cycle sj j (d j) = Inr (sj', r)"
    and rs: "lve_run d (Suc j) = Inr (sj', rowsj @ [r])" by blast
  from assms(2) obtain m where k: "k = Suc j + m" using less_iff_Suc_add by auto
  from lve_run_prefix [OF rs, of m st rows] assms(1) k
  have "take (Suc j) rows = rowsj @ [r]" by simp
  then have "(take (Suc j) rows) ! j = r" using lj by (simp add: nth_append)
  then have "rows ! j = r" by simp
  with rj c rs show ?thesis by blast
qed

lemma lve100k_run_prefix:
  "take k (snd (lve100k_run d (k + j))) = snd (lve100k_run d k)"
proof (induction j)
  case 0
  show ?case using lve100k_run_length [of d k] by simp
next
  case (Suc j)
  obtain s1 rows1 where r1: "lve100k_run d (k + j) = (s1, rows1)"
    by (cases "lve100k_run d (k + j)")
  from lve100k_run_length [of d "k + j"] r1 have l1: "length rows1 = k + j" by simp
  from lve100k_run_Suc [OF r1] obtain s' r where "lve100k_run d (Suc (k + j)) = (s', rows1 @ [r])"
    by blast
  with Suc r1 l1 show ?case by simp
qed

lemma lve100k_row:
  assumes "lve100k_run d k = (st, rows)" and "j < k"
  shows "\<exists>sj rowsj sj'. lve100k_run d j = (sj, rowsj) \<and>
           lve100k_cycle sj j (d j) = (sj', rows ! j) \<and>
           lve100k_run d (Suc j) = (sj', rowsj @ [rows ! j])"
proof -
  obtain sj rowsj where rj: "lve100k_run d j = (sj, rowsj)" by (cases "lve100k_run d j")
  from lve100k_run_length [of d j] rj have lj: "length rowsj = j" by simp
  from lve100k_run_Suc [OF rj] obtain sj' r where c: "lve100k_cycle sj j (d j) = (sj', r)"
    and rs: "lve100k_run d (Suc j) = (sj', rowsj @ [r])" by blast
  from assms(2) obtain m where k: "k = Suc j + m" using less_iff_Suc_add by auto
  from lve100k_run_prefix [of "Suc j" d m] assms(1) k rs
  have "take (Suc j) rows = rowsj @ [r]" by simp
  then have "(take (Suc j) rows) ! j = r" using lj by (simp add: nth_append)
  then have "rows ! j = r" by simp
  with rj c rs show ?thesis by blast
qed

lemma lve_rows_clean:
  assumes "lve_run d k = Inr (st, rows)" and "r \<in> set rows"
  shows "VACUUM_STRUCTURE_DRIFT \<notin> set (rec_anomaly r) \<and> rec_area_sim r = rec_area_expected r"
proof -
  from lve_run_total [of d k] assms(1) have "length rows = k" by simp
  with assms(2) obtain j where j: "j < k" and r: "r = rows ! j"
    by (auto simp: in_set_conv_nth)
  from lve_row [OF assms(1) j] obtain sj sj' where "lve_cycle sj j (d j) = Inr (sj', r)"
    using r by blast
  with lve_cycle_result [of sj j "d j"] show ?thesis by auto
qed

lemma lve100k_rows_clean:
  assumes "r \<in> set (snd (lve100k_run d k))"
  shows "AREA_DRIFT \<notin> set (rec_anomaly r) \<and> rec_area_sim r = rec_area_expected r"
proof -
  obtain st rows where run: "lve100k_run d k = (st, rows)" by (cases "lve100k_run d k")
  from lve100k_run_length [of d k] run have "length rows = k" by simp
  with assms run obtain j where j: "j < k" and r: "r = rows ! j"
    by (auto simp: in_set_conv_nth)
  from lve100k_row [OF run j] obtain sj sj' where "lve100k_cycle sj j (d j) = (sj', r)"
    using r by blast
  with lve100k_cycle_result [of sj j "d j"] show ?thesis by auto
qed

text \<open>
  C7. For every mode count \<open>n \<ge> 0\<close> (so for every \<open>n\<close> in \<open>[0, N_MAX]\<close>) the generator
  returns a state whose extracted area is exactly the expected area \<open>max(n, 1) * 2\<pi>\<close>,
  hence within \<open>1e-10\<close> of it. For \<open>n > 0\<close> the state is a ket of \<open>n\<close> subsystems, whose
  number the extractor reads. For \<open>n = 0\<close> the state is not a ket: the extractor takes 0
  modes and its \<^verbatim>\<open>max(n_modes, 1)\<close> makes the area \<open>2\<pi>\<close>, not 0. No row of either engine's
  log carries the drift tag.
\<close>

theorem area_never_drifts:
  "(0 \<le> n \<longrightarrow>
      (\<exists>psi. generate_ghz_full n = Inr psi \<and>
         compute_total_wigner_area psi = area_expected_of n \<and>
         \<not> 1 / 10 ^ 10 < \<bar>compute_total_wigner_area psi - area_expected_of n\<bar>)) \<and>
   area_expected_of n = real_of_int (max n 1) * (2 * pi) \<and>
   (0 < n \<longrightarrow>
      (\<exists>psi. generate_ghz_full n = Inr psi \<and> qtype psi = Ket \<and>
         length (dims0 psi) = nat n)) \<and>
   (\<exists>psi. generate_ghz_full 0 = Inr psi \<and> qtype psi \<noteq> Ket \<and>
      compute_total_wigner_area psi = 2 * pi) \<and>
   area_expected_of 0 = 2 * pi \<and> area_expected_of 0 \<noteq> 0 \<and>
   (lve_run d k = Inr (st, rows) \<longrightarrow>
      (\<forall>r\<in>set rows. VACUUM_STRUCTURE_DRIFT \<notin> set (rec_anomaly r) \<and>
         rec_area_sim r = rec_area_expected r)) \<and>
   (\<forall>r\<in>set (snd (lve100k_run d k)). AREA_DRIFT \<notin> set (rec_anomaly r) \<and>
         rec_area_sim r = rec_area_expected r)"
proof -
  have a: "\<exists>psi. generate_ghz_full n = Inr psi \<and>
         compute_total_wigner_area psi = area_expected_of n \<and>
         \<not> 1 / 10 ^ 10 < \<bar>compute_total_wigner_area psi - area_expected_of n\<bar>" if "0 \<le> n"
    using generate_area [OF that] by auto
  have b: "area_expected_of n = real_of_int (max n 1) * (2 * pi)"
    by (simp add: area_expected_of_def)
  have p: "\<exists>psi. generate_ghz_full n = Inr psi \<and> qtype psi = Ket \<and>
         length (dims0 psi) = nat n" if "0 < n"
    using generate_pos [OF that] by auto
  have c: "\<exists>psi. generate_ghz_full 0 = Inr psi \<and> qtype psi \<noteq> Ket \<and>
      compute_total_wigner_area psi = 2 * pi"
  proof -
    let ?v = "\<lparr>dims0 = [1], dims1 = [1], amps = [1]\<rparr>"
    have "qtype ?v \<noteq> Ket" by (simp add: qtype_def)
    moreover have "compute_total_wigner_area ?v = 2 * pi"
      by (simp add: compute_total_wigner_area_def qtype_def)
    ultimately show ?thesis using generate_zero by blast
  qed
  have e: "area_expected_of 0 = 2 * pi \<and> area_expected_of 0 \<noteq> 0"
    by (simp add: area_expected_of_def)
  from a b p c e lve_rows_clean [of d k st rows] lve100k_rows_clean [of _ d k]
  show ?thesis by blast
qed

theorem area_never_drifts_witness:
  "(\<exists>psi. generate_ghz_full 3 = Inr psi \<and>
      compute_total_wigner_area psi = area_expected_of 3 \<and>
      \<not> 1 / 10 ^ 10 < \<bar>compute_total_wigner_area psi - area_expected_of 3\<bar>) \<and>
   (\<exists>psi. generate_ghz_full 3 = Inr psi \<and> qtype psi = Ket \<and> length (dims0 psi) = 3) \<and>
   (\<exists>st rows. lve_run (\<lambda>i. 3) 2 = Inr (st, rows) \<and> length rows = 2 \<and>
      VACUUM_STRUCTURE_DRIFT \<notin> set (rec_anomaly (rows ! 1))) \<and>
   AREA_DRIFT \<notin> set (rec_anomaly (snd (lve100k_run (\<lambda>i. 3) 2) ! 1))"
proof -
  have n3: "(0 :: int) \<le> 3" and p3: "(0 :: int) < 3" by simp_all
  obtain st rows where r: "lve_run (\<lambda>i. 3) 2 = Inr (st, rows)" and l: "length rows = 2"
    using lve_run_total [of "\<lambda>i. 3" 2] by blast
  note main = area_never_drifts [of 3 "\<lambda>i. 3" 2 st rows]
  from n3 main have a: "\<exists>psi. generate_ghz_full 3 = Inr psi \<and>
      compute_total_wigner_area psi = area_expected_of 3 \<and>
      \<not> 1 / 10 ^ 10 < \<bar>compute_total_wigner_area psi - area_expected_of 3\<bar>"
    by blast
  from p3 main have "\<exists>psi. generate_ghz_full 3 = Inr psi \<and> qtype psi = Ket \<and>
      length (dims0 psi) = nat 3"
    by blast
  then have k: "\<exists>psi. generate_ghz_full 3 = Inr psi \<and> qtype psi = Ket \<and>
      length (dims0 psi) = 3"
    by simp
  from l have "rows ! 1 \<in> set rows" by simp
  with r main have "VACUUM_STRUCTURE_DRIFT \<notin> set (rec_anomaly (rows ! 1))"
    by blast
  with r l have b: "\<exists>st rows. lve_run (\<lambda>i. 3) 2 = Inr (st, rows) \<and> length rows = 2 \<and>
      VACUUM_STRUCTURE_DRIFT \<notin> set (rec_anomaly (rows ! 1))" by blast
  have "snd (lve100k_run (\<lambda>i. 3) 2) ! 1 \<in> set (snd (lve100k_run (\<lambda>i. 3) 2))"
    using lve100k_run_length [of "\<lambda>i. 3" 2] by simp
  with main have c: "AREA_DRIFT \<notin> set (rec_anomaly (snd (lve100k_run (\<lambda>i. 3) 2) ! 1))"
    by blast
  from a k b c show ?thesis by blast
qed

text \<open>
  C8 (as amended). The generator (\<^verbatim>\<open>generate_ghz_full\<close>, and \<^verbatim>\<open>latent_state\<close> of
  Wieger_3.py) returns a state for every \<open>n \<ge> 0\<close>, for \<open>n = 0\<close> the basis vector of a
  one-level system, and for every negative \<open>n\<close> it fails with the \<^verbatim>\<open>IndexError\<close> that the
  library's \<^verbatim>\<open>tensor\<close> raises on the empty list \<^verbatim>\<open>[zero] * n\<close>.
\<close>

theorem generator_succeeds_or_raises:
  "(0 \<le> n \<longrightarrow> (\<exists>psi. generate_ghz_full n = Inr psi) \<and> (\<exists>psi. latent_state n = Inr psi)) \<and>
   generate_ghz_full 0 = Inr \<lparr>dims0 = [1], dims1 = [1], amps = [1]\<rparr> \<and>
   latent_state 0 = Inr \<lparr>dims0 = [1], dims1 = [1], amps = [1]\<rparr> \<and>
   (n < 0 \<longrightarrow> generate_ghz_full n = Inl IndexError \<and> latent_state n = Inl IndexError)"
proof -
  have a: "(\<exists>psi. generate_ghz_full n = Inr psi) \<and> (\<exists>psi. latent_state n = Inr psi)"
    if "0 \<le> n"
    using generate_area [OF that] by (auto simp: latent_state_eq)
  have b: "generate_ghz_full n = Inl IndexError \<and> latent_state n = Inl IndexError"
    if "n < 0"
    using generate_neg [OF that] by (simp add: latent_state_eq)
  from a b generate_zero show ?thesis by (simp add: latent_state_eq)
qed

theorem generator_succeeds_or_raises_witness:
  "(\<exists>psi. generate_ghz_full 2 = Inr psi) \<and> (\<exists>psi. latent_state 2 = Inr psi) \<and>
   generate_ghz_full (- 1) = Inl IndexError \<and> latent_state (- 1) = Inl IndexError"
proof -
  have "(0 :: int) \<le> 2" and "(- 1 :: int) < 0" by simp_all
  then show ?thesis
    using generator_succeeds_or_raises [of 2] generator_succeeds_or_raises [of "- 1"]
    by blast
qed

text \<open>
  C8 (as stated) fails at \<open>n = - 1\<close>: the generator checks nothing itself, and what the
  call raises is the library's \<^verbatim>\<open>IndexError\<close>, not an \<open>InvalidInput\<close> error.
\<close>

theorem negative_count_raises_index_error:
  "generate_ghz_full (- 1) = Inl IndexError \<and> generate_ghz_full (- 1) \<noteq> Inl InvalidInput"
  by (simp add: generate_neg)

lemma lve_run_depends_on_draws:
  "(\<forall>i<k. d1 i = d2 i) \<Longrightarrow> lve_run d1 k = lve_run d2 k"
proof (induction k)
  case 0
  show ?case by simp
next
  case (Suc k)
  then have "lve_run d1 k = lve_run d2 k" and "d1 k = d2 k" by simp_all
  then show ?case by (simp split: sum.splits)
qed

lemma lve_run_rec_n:
  assumes "lve_run d k = Inr (st, rows)" and "i < k"
  shows "rec_n (rows ! i) = int (d i)"
proof -
  from lve_row [OF assms] obtain sj sj' where "lve_cycle sj i (d i) = Inr (sj', rows ! i)"
    by blast
  with lve_cycle_result [of sj i "d i"] show ?thesis by auto
qed

lemma lve100k_run_rec_n:
  assumes "i < k"
  shows "rec_n (snd (lve100k_run d k) ! i) = int (d i)"
proof -
  obtain st rows where run: "lve100k_run d k = (st, rows)" by (cases "lve100k_run d k")
  from lve100k_row [OF run assms] obtain sj sj'
    where "lve100k_cycle sj i (d i) = (sj', rows ! i)" by blast
  with lve100k_cycle_result [of sj i "d i"] run show ?thesis by auto
qed

lemma lve_rows_eq_iff:
  assumes "lve_run d1 k = Inr (st1, rows1)" and "lve_run d2 k = Inr (st2, rows2)"
  shows "(rows1 = rows2) = (\<forall>i<k. d1 i = d2 i)"
proof
  assume e: "rows1 = rows2"
  show "\<forall>i<k. d1 i = d2 i"
  proof (intro allI impI)
    fix i assume i: "i < k"
    from lve_run_rec_n [OF assms(1) i] lve_run_rec_n [OF assms(2) i] e
    show "d1 i = d2 i" by simp
  qed
next
  assume "\<forall>i<k. d1 i = d2 i"
  then have "lve_run d1 k = lve_run d2 k" by (rule lve_run_depends_on_draws)
  with assms show "rows1 = rows2" by simp
qed

text \<open>
  C3 (as amended). The counter variant seeds the generator with 42 before its loop: its
  run does not depend on the stream the generator had before, and the \<open>n\<close> column of its
  \<open>CYCLES_100k\<close> rows is the seeded stream. latent_vacuum_engine.py never seeds: each run of
  its \<open>CYCLES\<close> cycles completes, and two runs log the same rows exactly when the generator
  returns the same value in every cycle.
\<close>

theorem runs_repeat_exactly_when_draws_do:
  "lve100k_main seeded a = lve100k_main seeded a' \<and>
   length (snd (lve100k_main seeded a)) = CYCLES_100k \<and>
   (\<forall>i<CYCLES_100k. rec_n (snd (lve100k_main seeded a) ! i) = int (seeded 42 i)) \<and>
   (\<exists>st rows. lve_main a = Inr (st, rows) \<and> length rows = CYCLES) \<and>
   (lve_main a = Inr (st, rows) \<and> lve_main a' = Inr (st', rows') \<longrightarrow>
      (rows = rows') = (\<forall>i<CYCLES. a i = a' i))"
proof -
  have c1: "lve100k_main seeded a = lve100k_main seeded a'"
    by (simp add: lve100k_main_def)
  have c2: "length (snd (lve100k_main seeded a)) = CYCLES_100k"
    by (simp add: lve100k_main_def lve100k_run_length)
  have c3: "\<forall>i<CYCLES_100k. rec_n (snd (lve100k_main seeded a) ! i) = int (seeded 42 i)"
    by (simp add: lve100k_main_def lve100k_run_rec_n)
  have c4: "\<exists>st rows. lve_main a = Inr (st, rows) \<and> length rows = CYCLES"
    unfolding lve_main_def by (rule lve_run_total)
  have c5: "(rows = rows') = (\<forall>i<CYCLES. a i = a' i)"
    if "lve_main a = Inr (st, rows) \<and> lve_main a' = Inr (st', rows')"
    using that lve_rows_eq_iff [of a CYCLES st rows a' st' rows']
    by (simp add: lve_main_def)
  from c1 c2 c3 c4 c5 show ?thesis by blast
qed

theorem runs_repeat_exactly_when_draws_do_witness:
  "\<exists>st rows st' rows'. lve_main (\<lambda>i. 0) = Inr (st, rows) \<and>
     lve_main (\<lambda>i. if i < CYCLES then 0 else 1) = Inr (st', rows') \<and>
     length rows = CYCLES \<and> rows = rows'"
proof -
  obtain st rows where r1: "lve_main (\<lambda>i. 0) = Inr (st, rows)" and l: "length rows = CYCLES"
    using lve_run_total [of "\<lambda>i. 0" CYCLES] by (auto simp: lve_main_def)
  obtain st' rows' where r2: "lve_main (\<lambda>i. if i < CYCLES then 0 else 1) = Inr (st', rows')"
    using lve_run_total [of "\<lambda>i. if i < CYCLES then 0 else 1" CYCLES]
    by (auto simp: lve_main_def)
  have h: "\<forall>i<CYCLES. (\<lambda>i. 0 :: nat) i = (\<lambda>i. if i < CYCLES then 0 else 1) i" by simp
  from runs_repeat_exactly_when_draws_do
    [of _ "\<lambda>i. 0" "\<lambda>i. if i < CYCLES then 0 else 1" st rows st' rows'] r1 r2 h
  have "rows = rows'" by blast
  with r1 r2 l show ?thesis by blast
qed

text \<open>
  C3 (as stated) fails for latent_vacuum_engine.py, where no seed fixes the draws: a run
  whose first draw is 0 and a run whose first draw is 1 log different first rows.
\<close>

theorem unseeded_runs_differ:
  "\<exists>st rows st' rows'. lve_main (\<lambda>i. 0) = Inr (st, rows) \<and>
     lve_main (\<lambda>i. if i = 0 then 1 else 0) = Inr (st', rows') \<and>
     rec_n (rows ! 0) = 0 \<and> rec_n (rows' ! 0) = 1 \<and> rows \<noteq> rows'"
proof -
  have pos: "0 < CYCLES" by (simp add: CYCLES_def)
  obtain st rows where r1: "lve_run (\<lambda>i. 0) CYCLES = Inr (st, rows)"
    using lve_run_total [of "\<lambda>i. 0" CYCLES] by blast
  obtain st' rows' where r2: "lve_run (\<lambda>i. if i = 0 then 1 else 0) CYCLES = Inr (st', rows')"
    using lve_run_total [of "\<lambda>i. if i = 0 then 1 else 0" CYCLES] by blast
  from lve_run_rec_n [OF r1 pos] have n1: "rec_n (rows ! 0) = 0" by simp
  from lve_run_rec_n [OF r2 pos] have n2: "rec_n (rows' ! 0) = 1" by simp
  from n1 n2 have "rows \<noteq> rows'" by auto
  with r1 r2 n1 n2 show ?thesis unfolding lve_main_def by blast
qed

section \<open>Positivity of the mass\<close>

lemma core_step_bound: "dt_const / (15360 * pi * M_PLANCK_CORE ^ 2) < M_PLANCK_CORE"
proof -
  have "20 < 15360 * pi * (5 / 100) ^ 2"
    using pi_ge_two by (simp add: power2_eq_square)
  then have "1 / (15360 * pi * (5 / 100) ^ 2) < 1 / 20"
    by (intro divide_strict_left_mono) simp_all
  then show ?thesis by (simp add: dt_const_def M_PLANCK_CORE_def)
qed

lemma step_drop_bound:
  assumes "M_PLANCK_CORE < M"
  shows "M - M_new_of M \<le> dt_const / (15360 * pi * M_PLANCK_CORE ^ 2)"
proof -
  from assms core_pos have "M_PLANCK_CORE ^ 2 \<le> M ^ 2"
    by (intro power_mono) simp_all
  then have "15360 * pi * M_PLANCK_CORE ^ 2 \<le> 15360 * pi * M ^ 2" by simp
  moreover from core_pos have "0 < 15360 * pi * M_PLANCK_CORE ^ 2" by simp
  ultimately have "1 / (15360 * pi * M ^ 2) \<le> 1 / (15360 * pi * M_PLANCK_CORE ^ 2)"
    by (intro frac_le) simp_all
  with assms show ?thesis by (simp add: M_new_of_eq dt_const_def)
qed

lemma M_new_of_pos:
  assumes "0 < M"
  shows "0 < M_new_of M"
proof (cases "M \<le> M_PLANCK_CORE")
  case True
  with assms show ?thesis by (simp add: M_new_of_eq)
next
  case False
  then have "M - M_new_of M < M_PLANCK_CORE"
    using step_drop_bound [of M] core_step_bound by simp
  with False show ?thesis by simp
qed

lemma lve_mass_pos: "lve_run d k = Inr (st, rows) \<Longrightarrow> 0 < lve_M st"
proof (induction k arbitrary: st rows)
  case 0
  then show ?case by (auto simp: lve_init_def M_initial_def)
next
  case (Suc k)
  obtain s0 rows0 where r0: "lve_run d k = Inr (s0, rows0)"
    using lve_run_total [of d k] by blast
  from Suc.IH [OF r0] have p: "0 < M_new_of (lve_M s0)" by (rule M_new_of_pos)
  from lve_run_Suc [OF r0] Suc.prems obtain r where "lve_cycle s0 k (d k) = Inr (st, r)"
    by auto
  with lve_cycle_result [of s0 k "d k"] p show ?case
    by (auto simp: M_initial_def split: if_splits)
qed

lemma lve100k_mass_above_core: "M_PLANCK_CORE < cnt_M (fst (lve100k_run d k))"
proof (induction k)
  case 0
  show ?case by (simp add: lve100k_init_def M_initial_def M_PLANCK_CORE_def)
next
  case (Suc k)
  obtain s0 rows0 where r0: "lve100k_run d k = (s0, rows0)" by (cases "lve100k_run d k")
  from lve100k_run_Suc [OF r0] obtain st r where c: "lve100k_cycle s0 k (d k) = (st, r)"
    and r1: "lve100k_run d (Suc k) = (st, rows0 @ [r])" by blast
  from lve100k_cycle_result [of s0 k "d k"] c
  have "M_PLANCK_CORE < cnt_M st"
    by (auto simp: M_initial_def M_PLANCK_CORE_def split: if_splits)
  with r1 show ?case by simp
qed

lemma sin_coeff_values:
  "sin_coeff 0 = 0" "sin_coeff (Suc 0) = 1" "sin_coeff 2 = 0" "sin_coeff 3 = - 1 / 6"
  "sin_coeff 4 = 0"
  by (simp_all add: sin_coeff_def fact_numeral)

lemma sin_sixth_poly:
  fixes y :: real
  shows "\<bar>sin y - (y - y ^ 3 / 6)\<bar> \<le> \<bar>y\<bar> ^ 5 / 120"
proof -
  have set5: "{..<5 :: nat} = {0, 1, 2, 3, 4}" by auto
  have s: "(\<Sum>m<5. sin_coeff m * y ^ m) = y - y ^ 3 / 6"
    unfolding set5 by (simp add: sin_coeff_values)
  have f: "inverse (fact 5) * \<bar>y\<bar> ^ 5 = \<bar>y\<bar> ^ 5 / 120"
    by (simp add: fact_numeral)
  from Maclaurin_sin_bound [of y 5]
  have "\<bar>sin y - (y - y ^ 3 / 6)\<bar> \<le> inverse (fact 5) * \<bar>y\<bar> ^ 5"
    unfolding s .
  then show ?thesis unfolding f .
qed

lemma pi_sixth_bounds: "1 / 2 \<le> pi / 6 \<and> pi / 6 < 2 / 3"
proof -
  have "sin (pi / 6) \<le> pi / 6" by (rule sin_x_le_x) simp
  then show ?thesis using pi_less_4 by (simp add: sin_30)
qed

lemma pi_sixth_tight: "52 / 100 < pi / 6 \<and> pi / 6 < 529 / 1000"
proof -
  define y where "y = pi / 6"
  from pi_sixth_bounds have lo: "1 / 2 \<le> y" and hi: "y < 2 / 3" by (simp_all add: y_def)
  then have pos: "0 \<le> y" by simp
  have "sin y = 1 / 2" by (simp add: y_def sin_30)
  with sin_sixth_poly [of y] pos
  have e: "\<bar>1 / 2 - (y - y ^ 3 / 6)\<bar> \<le> y ^ 5 / 120" by simp
  then have up: "y \<le> 1 / 2 + y ^ 3 / 6 + y ^ 5 / 120"
    and low: "1 / 2 + y ^ 3 / 6 - y ^ 5 / 120 \<le> y" by linarith+
  from pos hi have "y ^ 3 \<le> (2 / 3) ^ 3" and "y ^ 5 \<le> (2 / 3) ^ 5"
    by (intro power_mono, simp, simp)+
  moreover have "(2 / 3 :: real) ^ 3 = 8 / 27" and "(2 / 3 :: real) ^ 5 = 32 / 243"
    by (simp_all add: power_divide)
  ultimately have "y ^ 3 \<le> 8 / 27" and "y ^ 5 \<le> 32 / 243" by linarith+
  with up have u1: "y \<le> 551 / 1000" by linarith
  with pos have "y ^ 3 \<le> (551 / 1000) ^ 3" and "y ^ 5 \<le> (551 / 1000) ^ 5"
    by (intro power_mono, simp, simp)+
  moreover have "(551 / 1000 :: real) ^ 3 \<le> 168 / 1000"
    and "(551 / 1000 :: real) ^ 5 \<le> 51 / 1000"
    by (simp_all add: power_divide)
  ultimately have "y ^ 3 \<le> 168 / 1000" and c5: "y ^ 5 \<le> 51 / 1000" by linarith+
  with up have u2: "y < 529 / 1000" by linarith
  from lo have "(1 / 2) ^ 3 \<le> y ^ 3" by (intro power_mono) simp_all
  moreover have "(1 / 2 :: real) ^ 3 = 1 / 8" by (simp add: power_divide)
  ultimately have "1 / 8 \<le> y ^ 3" by linarith
  with low c5 have "52 / 100 < y" by linarith
  with u2 show ?thesis by (simp add: y_def)
qed

lemma core_step_value:
  "82 / 10000 < dt_const / (15360 * pi * M_PLANCK_CORE ^ 2) \<and>
   dt_const / (15360 * pi * M_PLANCK_CORE ^ 2) < 84 / 10000"
proof -
  define y where "y = pi / 6"
  from pi_sixth_tight have b: "52 / 100 < y" "y < 529 / 1000" by (simp_all add: y_def)
  have v: "dt_const / (15360 * pi * M_PLANCK_CORE ^ 2) = 1 / (2304 / 10 * y)"
    by (simp add: dt_const_def M_PLANCK_CORE_def y_def power2_eq_square)
  from b have p: "0 < 2304 / 10 * y" by simp
  from b have "2304 / 10 * y < 10000 / 82" by simp
  with p have "1 / (10000 / 82) < 1 / (2304 / 10 * y)"
    by (intro divide_strict_left_mono) simp_all
  moreover from b have "10000 / 84 < 2304 / 10 * y" by simp
  then have "1 / (2304 / 10 * y) < 1 / (10000 / 84)"
    by (intro divide_strict_left_mono) simp_all
  ultimately show ?thesis unfolding v by simp
qed

text \<open>
  C10. Starting from \<open>M_initial = 1\<close>, the mass is strictly positive after every number of
  cycles, in both engines, and so is the post-step mass before a reset; hence every call of
  \<^verbatim>\<open>apply_dce_drive\<close> in a run takes the branch \<open>DCE_DRIVE_BASE * V / M\<^sup>3\<close>. One step from a
  mass above the core floor removes at most \<open>dt / (15360 \<pi> M_PLANCK_CORE\<^sup>2)\<close>, which is less
  than \<open>M_PLANCK_CORE\<close>: it lies between 0.0082 and 0.0084.
\<close>

theorem mass_stays_positive:
  "(lve_run d k = Inr (st, rows) \<longrightarrow>
      0 < lve_M st \<and> 0 < M_new_of (lve_M st) \<and>
      apply_dce_drive (measure_hom_visibility T_HOM) (lve_M st) =
        DCE_DRIVE_BASE * measure_hom_visibility T_HOM / lve_M st ^ 3) \<and>
   0 < cnt_M (fst (lve100k_run d k)) \<and> 0 < M_new_of (cnt_M (fst (lve100k_run d k))) \<and>
   apply_dce_drive (measure_hom_visibility T_HOM) (cnt_M (fst (lve100k_run d k))) =
     DCE_DRIVE_BASE * measure_hom_visibility T_HOM / cnt_M (fst (lve100k_run d k)) ^ 3 \<and>
   (M_PLANCK_CORE < M \<longrightarrow>
      M - M_new_of M \<le> dt_const / (15360 * pi * M_PLANCK_CORE ^ 2)) \<and>
   dt_const / (15360 * pi * M_PLANCK_CORE ^ 2) < M_PLANCK_CORE \<and>
   82 / 10000 < dt_const / (15360 * pi * M_PLANCK_CORE ^ 2) \<and>
   dt_const / (15360 * pi * M_PLANCK_CORE ^ 2) < 84 / 10000"
proof -
  have a: "0 < lve_M st \<and> 0 < M_new_of (lve_M st) \<and>
      apply_dce_drive (measure_hom_visibility T_HOM) (lve_M st) =
        DCE_DRIVE_BASE * measure_hom_visibility T_HOM / lve_M st ^ 3"
    if "lve_run d k = Inr (st, rows)"
    using lve_mass_pos [OF that] M_new_of_pos by (simp add: apply_dce_drive_def)
  have p: "0 < cnt_M (fst (lve100k_run d k))"
    using lve100k_mass_above_core [of d k] core_pos by linarith
  then have b: "0 < M_new_of (cnt_M (fst (lve100k_run d k))) \<and>
     apply_dce_drive (measure_hom_visibility T_HOM) (cnt_M (fst (lve100k_run d k))) =
       DCE_DRIVE_BASE * measure_hom_visibility T_HOM / cnt_M (fst (lve100k_run d k)) ^ 3"
    using M_new_of_pos by (simp add: apply_dce_drive_def)
  from a p b step_drop_bound [of M] core_step_bound core_step_value show ?thesis by blast
qed

theorem mass_stays_positive_witness:
  "(\<exists>st rows. lve_run (\<lambda>i. 0) 3 = Inr (st, rows) \<and> 0 < lve_M st \<and>
      apply_dce_drive (measure_hom_visibility T_HOM) (lve_M st) =
        DCE_DRIVE_BASE * measure_hom_visibility T_HOM / lve_M st ^ 3) \<and>
   M_PLANCK_CORE < 1 \<and>
   1 - M_new_of 1 \<le> dt_const / (15360 * pi * M_PLANCK_CORE ^ 2)"
proof -
  obtain st rows where r: "lve_run (\<lambda>i. 0) 3 = Inr (st, rows)"
    using lve_run_total [of "\<lambda>i. 0" 3] by blast
  have c: "M_PLANCK_CORE < 1" by (simp add: M_PLANCK_CORE_def)
  from r c mass_stays_positive [of "\<lambda>i. 0" 3 st rows 1] show ?thesis by blast
qed

section \<open>Bursts: reset, counter and tag\<close>

lemma lve_run_inject:
  assumes "lve_run d k = Inr (st, rows)" and "lve_run d (Suc k) = Inr (st', rows')"
  shows "\<exists>r. lve_cycle st k (d k) = Inr (st', r) \<and> rows' = rows @ [r] \<and> rows' ! k = r \<and>
    length rows = k"
proof -
  from lve_run_total [of d k] assms(1) have l: "length rows = k" by simp
  from lve_run_Suc [OF assms(1)] assms(2) obtain r
    where c: "lve_cycle st k (d k) = Inr (st', r)" and e: "rows' = rows @ [r]" by auto
  from e l have "rows' ! k = r" by auto
  with c e l show ?thesis by blast
qed

lemma lve100k_run_inject:
  assumes "lve100k_run d k = (st, rows)" and "lve100k_run d (Suc k) = (st', rows')"
  shows "\<exists>r. lve100k_cycle st k (d k) = (st', r) \<and> rows' = rows @ [r] \<and> rows' ! k = r \<and>
    length rows = k"
proof -
  from lve100k_run_length [of d k] assms(1) have l: "length rows = k" by simp
  from lve100k_run_Suc [OF assms(1)] assms(2) obtain r
    where c: "lve100k_cycle st k (d k) = (st', r)" and e: "rows' = rows @ [r]" by auto
  from e l have "rows' ! k = r" by auto
  with c e l show ?thesis by blast
qed

text \<open>
  One step from a mass in \<open>[0.9, 1]\<close> removes at most \<open>1 / 10000\<close>, so the mass of
  latent_vacuum_engine.py is still above 0.9 after its \<open>CYCLES\<close> cycles.
\<close>

lemma early_step:
  assumes "9 / 10 \<le> M" and "M \<le> 1"
  shows "M - 1 / 10000 \<le> M_new_of M \<and> M_new_of M < M"
proof -
  from assms have "(9 / 10) ^ 2 \<le> M ^ 2" by (intro power_mono) simp_all
  then have sq: "81 / 100 \<le> M ^ 2" by (simp add: power2_eq_square)
  have "(10000 :: real) \<le> 15360 * 2 * (81 / 100)" by simp
  also have "\<dots> \<le> 15360 * pi * M ^ 2"
    using pi_ge_two sq by (intro mult_mono) simp_all
  finally have big: "10000 \<le> 15360 * pi * M ^ 2" .
  then have "1 / (15360 * pi * M ^ 2) \<le> 1 / 10000"
    by (intro frac_le) simp_all
  moreover from big have "0 < 1 / (15360 * pi * M ^ 2)" by simp
  moreover from assms have "M_PLANCK_CORE < M" by (simp add: M_PLANCK_CORE_def)
  ultimately show ?thesis by (simp add: M_new_of_eq)
qed

lemma lve_early:
  "k \<le> CYCLES \<Longrightarrow> lve_run d k = Inr (st, rows) \<Longrightarrow>
     \<not> white_hole_triggered st \<and> lve_anomalies st = [] \<and>
     1 - real k / 10000 \<le> lve_M st \<and> lve_M st \<le> 1"
proof (induction k arbitrary: st rows)
  case 0
  then show ?case by (auto simp: lve_init_def M_initial_def)
next
  case (Suc k)
  obtain s0 rows0 where r0: "lve_run d k = Inr (s0, rows0)"
    using lve_run_total [of d k] by blast
  from Suc.prems(1) have k: "k \<le> CYCLES" and k': "real k \<le> 999"
    by (simp_all add: CYCLES_def)
  from Suc.IH [OF k r0] have t0: "\<not> white_hole_triggered s0"
    and a0: "lve_anomalies s0 = []"
    and lo: "1 - real k / 10000 \<le> lve_M s0" and hi: "lve_M s0 \<le> 1" by simp_all
  from lo k' have "9 / 10 \<le> lve_M s0" by simp
  from early_step [OF this hi]
  have st1: "lve_M s0 - 1 / 10000 \<le> M_new_of (lve_M s0)"
    and st2: "M_new_of (lve_M s0) < lve_M s0" by simp_all
  from st1 lo k' have above: "M_PLANCK_CORE < M_new_of (lve_M s0)"
    by (simp add: M_PLANCK_CORE_def)
  from lve_run_inject [OF r0 Suc.prems(2)] obtain r
    where c: "lve_cycle s0 k (d k) = Inr (st, r)" by blast
  from lve_cycle_result [of s0 k "d k"] c above t0 a0
  have "lve_M st = M_new_of (lve_M s0) \<and> \<not> white_hole_triggered st \<and>
      lve_anomalies st = []"
    by auto
  with st1 st2 lo hi show ?case by (simp add: field_simps)
qed

lemma lve_early_cycle:
  assumes "k < CYCLES" and "lve_run d k = Inr (s, rs)" and "lve_run d (Suc k) = Inr (s', rs')"
  shows "M_PLANCK_CORE < lve_M s \<and> M_PLANCK_CORE < M_new_of (lve_M s) \<and>
    M_new_of (lve_M s) < lve_M s \<and> lve_M s \<le> M_initial \<and>
    lve_M s' = M_new_of (lve_M s) \<and>
    \<not> white_hole_triggered s \<and> \<not> white_hole_triggered s' \<and>
    lve_anomalies s = [] \<and> lve_anomalies s' = [] \<and>
    WHITE_HOLE_BURST \<notin> set (rec_anomaly (rs' ! k)) \<and> rec_M (rs' ! k) = lve_M s'"
proof -
  from assms(1) have k: "k \<le> CYCLES" and k': "real k \<le> 999" by (simp_all add: CYCLES_def)
  from lve_early [OF k assms(2)] have t0: "\<not> white_hole_triggered s"
    and a0: "lve_anomalies s = []"
    and lo: "1 - real k / 10000 \<le> lve_M s" and hi: "lve_M s \<le> 1" by simp_all
  from lo k' have nine: "9 / 10 \<le> lve_M s" by simp
  then have core: "M_PLANCK_CORE < lve_M s" by (simp add: M_PLANCK_CORE_def)
  from early_step [OF nine hi]
  have st1: "lve_M s - 1 / 10000 \<le> M_new_of (lve_M s)"
    and st2: "M_new_of (lve_M s) < lve_M s" by simp_all
  from st1 nine have above: "M_PLANCK_CORE < M_new_of (lve_M s)"
    by (simp add: M_PLANCK_CORE_def)
  from lve_run_inject [OF assms(2) assms(3)] obtain r
    where c: "lve_cycle s k (d k) = Inr (s', r)" and r: "rs' ! k = r" by blast
  from lve_cycle_result [of s k "d k"] c above t0 a0
  have "lve_M s' = M_new_of (lve_M s) \<and> \<not> white_hole_triggered s' \<and>
      lve_anomalies s' = [] \<and> WHITE_HOLE_BURST \<notin> set (rec_anomaly r) \<and> rec_M r = lve_M s'"
    by auto
  with core above st2 hi t0 a0 r show ?thesis by (simp add: M_initial_def)
qed

text \<open>
  C1. In the counter variant the mass at the start of every cycle is above the core
  floor, and each cycle whose post-step mass is at or below the floor raises
  \<^verbatim>\<open>white_hole_count\<close> by exactly 1 and leaves \<open>M = M_initial\<close> for the next cycle; any
  other cycle leaves the counter alone. Such a cycle occurs among the \<open>CYCLES_100k\<close> cycles
  of that script. In latent_vacuum_engine.py the post-step mass is above the floor in each
  of the \<open>CYCLES\<close> cycles: there is no crossing in its run, no burst is recorded and the next
  cycle begins with the post-step mass.
\<close>

theorem burst_resets_mass_and_counts:
  "(lve100k_run d k = (st, rows) \<and> lve100k_run d (Suc k) = (st', rows') \<longrightarrow>
      M_PLANCK_CORE < cnt_M st \<and>
      (M_new_of (cnt_M st) \<le> M_PLANCK_CORE \<longrightarrow>
         white_hole_count st' = white_hole_count st + 1 \<and> cnt_M st' = M_initial) \<and>
      (M_PLANCK_CORE < M_new_of (cnt_M st) \<longrightarrow>
         white_hole_count st' = white_hole_count st \<and> cnt_M st' = M_new_of (cnt_M st))) \<and>
   (\<exists>K<CYCLES_100k. M_new_of (cnt_M (fst (lve100k_run d K))) \<le> M_PLANCK_CORE) \<and>
   (k < CYCLES \<and> lve_run d k = Inr (s, rs) \<and> lve_run d (Suc k) = Inr (s', rs') \<longrightarrow>
      M_PLANCK_CORE < lve_M s \<and> M_PLANCK_CORE < M_new_of (lve_M s) \<and>
      lve_M s' = M_new_of (lve_M s) \<and> \<not> white_hole_triggered s' \<and>
      lve_anomalies s = [] \<and> lve_anomalies s' = [])"
proof -
  have a: "M_PLANCK_CORE < cnt_M st \<and>
      (M_new_of (cnt_M st) \<le> M_PLANCK_CORE \<longrightarrow>
         white_hole_count st' = white_hole_count st + 1 \<and> cnt_M st' = M_initial) \<and>
      (M_PLANCK_CORE < M_new_of (cnt_M st) \<longrightarrow>
         white_hole_count st' = white_hole_count st \<and> cnt_M st' = M_new_of (cnt_M st))"
    if h: "lve100k_run d k = (st, rows) \<and> lve100k_run d (Suc k) = (st', rows')"
  proof -
    from h obtain r where c: "lve100k_cycle st k (d k) = (st', r)"
      using lve100k_run_inject by blast
    from h lve100k_mass_above_core [of d k] have "M_PLANCK_CORE < cnt_M st" by simp
    with lve100k_cycle_result [of st k "d k"] c show ?thesis by auto
  qed
  have b: "\<exists>K<CYCLES_100k. M_new_of (cnt_M (fst (lve100k_run d K))) \<le> M_PLANCK_CORE"
  proof -
    obtain K st0 rows0 where "K < CYCLES_100k" and "lve100k_run d K = (st0, rows0)"
      and "M_new_of (cnt_M st0) \<le> M_PLANCK_CORE"
      using lve100k_first_burst [of d] by blast
    then have "K < CYCLES_100k \<and> M_new_of (cnt_M (fst (lve100k_run d K))) \<le> M_PLANCK_CORE"
      by simp
    then show ?thesis by blast
  qed
  have c: "M_PLANCK_CORE < lve_M s \<and> M_PLANCK_CORE < M_new_of (lve_M s) \<and>
      lve_M s' = M_new_of (lve_M s) \<and> \<not> white_hole_triggered s' \<and>
      lve_anomalies s = [] \<and> lve_anomalies s' = []"
    if h: "k < CYCLES \<and> lve_run d k = Inr (s, rs) \<and> lve_run d (Suc k) = Inr (s', rs')"
  proof -
    from h have h1: "k < CYCLES" and h2: "lve_run d k = Inr (s, rs)"
      and h3: "lve_run d (Suc k) = Inr (s', rs')" by blast+
    from lve_early_cycle [OF h1 h2 h3] show ?thesis by simp
  qed
  from a b c show ?thesis by blast
qed

theorem burst_resets_mass_and_counts_witness:
  "(\<exists>K st rows st' rows'. K < CYCLES_100k \<and> lve100k_run (\<lambda>i. 0) K = (st, rows) \<and>
      lve100k_run (\<lambda>i. 0) (Suc K) = (st', rows') \<and>
      M_PLANCK_CORE < cnt_M st \<and> M_new_of (cnt_M st) \<le> M_PLANCK_CORE \<and>
      white_hole_count st' = white_hole_count st + 1 \<and> cnt_M st' = M_initial) \<and>
   (\<exists>st' rows'. lve100k_run (\<lambda>i. 0) (Suc 0) = (st', rows') \<and>
      M_PLANCK_CORE < M_new_of M_initial \<and>
      white_hole_count st' = 0 \<and> cnt_M st' = M_new_of M_initial) \<and>
   (\<exists>s' rs'. lve_run (\<lambda>i. 0) (Suc 0) = Inr (s', rs') \<and>
      M_PLANCK_CORE < M_new_of M_initial \<and> lve_M s' = M_new_of M_initial \<and>
      \<not> white_hole_triggered s' \<and> lve_anomalies s' = [])"
proof -
  have first: "M_PLANCK_CORE < M_new_of M_initial"
    using early_step [of 1] by (simp add: M_initial_def M_PLANCK_CORE_def)
  have a: "\<exists>K st rows st' rows'. K < CYCLES_100k \<and> lve100k_run (\<lambda>i. 0) K = (st, rows) \<and>
      lve100k_run (\<lambda>i. 0) (Suc K) = (st', rows') \<and>
      M_PLANCK_CORE < cnt_M st \<and> M_new_of (cnt_M st) \<le> M_PLANCK_CORE \<and>
      white_hole_count st' = white_hole_count st + 1 \<and> cnt_M st' = M_initial"
  proof -
    obtain K where K: "K < CYCLES_100k"
      and cross: "M_new_of (cnt_M (fst (lve100k_run (\<lambda>i. 0) K))) \<le> M_PLANCK_CORE"
      using burst_resets_mass_and_counts [of "\<lambda>i. 0"] by blast
    obtain st rows where c1: "lve100k_run (\<lambda>i. 0) K = (st, rows)"
      by (cases "lve100k_run (\<lambda>i. 0) K")
    obtain st' rows' where c2: "lve100k_run (\<lambda>i. 0) (Suc K) = (st', rows')"
      by (cases "lve100k_run (\<lambda>i. 0) (Suc K)")
    from cross c1 have c3: "M_new_of (cnt_M st) \<le> M_PLANCK_CORE" by simp
    from burst_resets_mass_and_counts [of "\<lambda>i. 0" K st rows st' rows'] c1 c2 c3
    have r: "M_PLANCK_CORE < cnt_M st \<and>
        white_hole_count st' = white_hole_count st + 1 \<and> cnt_M st' = M_initial"
      by simp
    from K c1 c2 c3 r show ?thesis
      by (intro exI conjI) (assumption | simp)+
  qed
  have b: "\<exists>st' rows'. lve100k_run (\<lambda>i. 0) (Suc 0) = (st', rows') \<and>
      M_PLANCK_CORE < M_new_of M_initial \<and>
      white_hole_count st' = 0 \<and> cnt_M st' = M_new_of M_initial"
  proof -
    have c0: "lve100k_run (\<lambda>i. 0) 0 = (lve100k_init, [])" by simp
    obtain st' rows' where c1: "lve100k_run (\<lambda>i. 0) (Suc 0) = (st', rows')"
      by (cases "lve100k_run (\<lambda>i. 0) (Suc 0)")
    from first have c2: "M_PLANCK_CORE < M_new_of (cnt_M lve100k_init)"
      by (simp add: lve100k_init_def)
    from burst_resets_mass_and_counts [of "\<lambda>i. 0" 0 lve100k_init "[]" st' rows'] c0 c1 c2
    have "white_hole_count st' = white_hole_count lve100k_init \<and>
        cnt_M st' = M_new_of (cnt_M lve100k_init)"
      by blast
    then have "white_hole_count st' = 0 \<and> cnt_M st' = M_new_of M_initial"
      by (simp add: lve100k_init_def)
    with c1 first show ?thesis by blast
  qed
  have c: "\<exists>s' rs'. lve_run (\<lambda>i. 0) (Suc 0) = Inr (s', rs') \<and>
      M_PLANCK_CORE < M_new_of M_initial \<and> lve_M s' = M_new_of M_initial \<and>
      \<not> white_hole_triggered s' \<and> lve_anomalies s' = []"
  proof -
    have l0: "lve_run (\<lambda>i. 0) 0 = Inr (lve_init, [])" by simp
    obtain s' rs' where l1: "lve_run (\<lambda>i. 0) (Suc 0) = Inr (s', rs')"
      using lve_run_total [of "\<lambda>i. 0" "Suc 0"] by blast
    have l2: "0 < CYCLES" by (simp add: CYCLES_def)
    from burst_resets_mass_and_counts
      [of "\<lambda>i. 0" 0 _ _ _ _ lve_init "[]" s' rs'] l0 l1 l2
    have "M_PLANCK_CORE < M_new_of (lve_M lve_init) \<and>
        lve_M s' = M_new_of (lve_M lve_init) \<and> \<not> white_hole_triggered s' \<and>
        lve_anomalies s' = []"
      by blast
    then have "M_PLANCK_CORE < M_new_of M_initial \<and> lve_M s' = M_new_of M_initial \<and>
        \<not> white_hole_triggered s' \<and> lve_anomalies s' = []"
      by (simp add: lve_init_def)
    with l1 show ?thesis by blast
  qed
  from a b c show ?thesis by (intro conjI)
qed

text \<open>
  C2. In every cycle of either engine the row carries \<^verbatim>\<open>WHITE_HOLE_BURST\<close> exactly when
  the post-step mass is at or below the core floor. In the counter variant that is the
  tag's condition (and it is met within the \<open>CYCLES_100k\<close> cycles); in each of the \<open>CYCLES\<close>
  cycles of latent_vacuum_engine.py the post-step mass is above the floor and the row has
  no such tag.
\<close>

theorem burst_tag_condition:
  "(lve100k_run d k = (st, rows) \<and> lve100k_run d (Suc k) = (st', rows') \<longrightarrow>
      (WHITE_HOLE_BURST \<in> set (rec_anomaly (rows' ! k))) =
        (M_new_of (cnt_M st) \<le> M_PLANCK_CORE)) \<and>
   (\<exists>K<CYCLES_100k.
      WHITE_HOLE_BURST \<in> set (rec_anomaly (snd (lve100k_run d (Suc K)) ! K))) \<and>
   (k < CYCLES \<and> lve_run d k = Inr (s, rs) \<and> lve_run d (Suc k) = Inr (s', rs') \<longrightarrow>
      (WHITE_HOLE_BURST \<in> set (rec_anomaly (rs' ! k))) =
        (M_new_of (lve_M s) \<le> M_PLANCK_CORE) \<and>
      WHITE_HOLE_BURST \<notin> set (rec_anomaly (rs' ! k)) \<and>
      M_PLANCK_CORE < M_new_of (lve_M s))"
proof -
  have a: "(WHITE_HOLE_BURST \<in> set (rec_anomaly (rows' ! k))) =
        (M_new_of (cnt_M st) \<le> M_PLANCK_CORE)"
    if h: "lve100k_run d k = (st, rows) \<and> lve100k_run d (Suc k) = (st', rows')"
  proof -
    from h obtain r where c: "lve100k_cycle st k (d k) = (st', r)" and r: "rows' ! k = r"
      using lve100k_run_inject by blast
    from lve100k_cycle_result [of st k "d k"] c
    have "(WHITE_HOLE_BURST \<in> set (rec_anomaly r)) = (M_new_of (cnt_M st) \<le> M_PLANCK_CORE)"
      by auto
    with r show ?thesis by simp
  qed
  have b: "\<exists>K<CYCLES_100k.
      WHITE_HOLE_BURST \<in> set (rec_anomaly (snd (lve100k_run d (Suc K)) ! K))"
  proof -
    obtain K st0 rows0 st1 r where K: "K < CYCLES_100k"
      and r1: "lve100k_run d (Suc K) = (st1, rows0 @ [r])" and len: "length rows0 = K"
      and tag: "WHITE_HOLE_BURST \<in> set (rec_anomaly r)"
      using lve100k_first_burst [of d] by blast
    from len have "(rows0 @ [r]) ! K = r" by auto
    with r1 tag have "WHITE_HOLE_BURST \<in> set (rec_anomaly (snd (lve100k_run d (Suc K)) ! K))"
      by simp
    with K show ?thesis by blast
  qed
  have c: "(WHITE_HOLE_BURST \<in> set (rec_anomaly (rs' ! k))) =
        (M_new_of (lve_M s) \<le> M_PLANCK_CORE) \<and>
      WHITE_HOLE_BURST \<notin> set (rec_anomaly (rs' ! k)) \<and>
      M_PLANCK_CORE < M_new_of (lve_M s)"
    if h: "k < CYCLES \<and> lve_run d k = Inr (s, rs) \<and> lve_run d (Suc k) = Inr (s', rs')"
  proof -
    from h have h1: "k < CYCLES" and h2: "lve_run d k = Inr (s, rs)"
      and h3: "lve_run d (Suc k) = Inr (s', rs')" by blast+
    from lve_early_cycle [OF h1 h2 h3] show ?thesis by simp
  qed
  from a b c show ?thesis by blast
qed

theorem burst_tag_condition_witness:
  "(\<exists>K st rows st' rows'. K < CYCLES_100k \<and> lve100k_run (\<lambda>i. 0) K = (st, rows) \<and>
      lve100k_run (\<lambda>i. 0) (Suc K) = (st', rows') \<and>
      WHITE_HOLE_BURST \<in> set (rec_anomaly (rows' ! K)) \<and>
      M_new_of (cnt_M st) \<le> M_PLANCK_CORE) \<and>
   (\<exists>st' rows'. lve100k_run (\<lambda>i. 0) (Suc 0) = (st', rows') \<and>
      M_PLANCK_CORE < M_new_of M_initial \<and>
      WHITE_HOLE_BURST \<notin> set (rec_anomaly (rows' ! 0))) \<and>
   (\<exists>s' rs'. lve_run (\<lambda>i. 0) (Suc 0) = Inr (s', rs') \<and>
      WHITE_HOLE_BURST \<notin> set (rec_anomaly (rs' ! 0)) \<and>
      M_PLANCK_CORE < M_new_of M_initial)"
proof -
  have first: "M_PLANCK_CORE < M_new_of M_initial"
    using early_step [of 1] by (simp add: M_initial_def M_PLANCK_CORE_def)
  have a: "\<exists>K st rows st' rows'. K < CYCLES_100k \<and> lve100k_run (\<lambda>i. 0) K = (st, rows) \<and>
      lve100k_run (\<lambda>i. 0) (Suc K) = (st', rows') \<and>
      WHITE_HOLE_BURST \<in> set (rec_anomaly (rows' ! K)) \<and>
      M_new_of (cnt_M st) \<le> M_PLANCK_CORE"
  proof -
    obtain K where K: "K < CYCLES_100k"
      and tag: "WHITE_HOLE_BURST \<in> set (rec_anomaly (snd (lve100k_run (\<lambda>i. 0) (Suc K)) ! K))"
      using burst_tag_condition [of "\<lambda>i. 0"] by blast
    obtain st rows where c1: "lve100k_run (\<lambda>i. 0) K = (st, rows)"
      by (cases "lve100k_run (\<lambda>i. 0) K")
    obtain st' rows' where c2: "lve100k_run (\<lambda>i. 0) (Suc K) = (st', rows')"
      by (cases "lve100k_run (\<lambda>i. 0) (Suc K)")
    from tag c2 have c3: "WHITE_HOLE_BURST \<in> set (rec_anomaly (rows' ! K))" by simp
    from burst_tag_condition [of "\<lambda>i. 0" K st rows st' rows'] c1 c2 c3
    have r: "M_new_of (cnt_M st) \<le> M_PLANCK_CORE" by simp
    from K c1 c2 c3 r show ?thesis
      by (intro exI conjI) (assumption | simp)+
  qed
  have b: "\<exists>st' rows'. lve100k_run (\<lambda>i. 0) (Suc 0) = (st', rows') \<and>
      M_PLANCK_CORE < M_new_of M_initial \<and>
      WHITE_HOLE_BURST \<notin> set (rec_anomaly (rows' ! 0))"
  proof -
    have c0: "lve100k_run (\<lambda>i. 0) 0 = (lve100k_init, [])" by simp
    obtain st' rows' where c1: "lve100k_run (\<lambda>i. 0) (Suc 0) = (st', rows')"
      by (cases "lve100k_run (\<lambda>i. 0) (Suc 0)")
    from first have c2: "\<not> M_new_of (cnt_M lve100k_init) \<le> M_PLANCK_CORE"
      by (simp add: lve100k_init_def)
    from burst_tag_condition [of "\<lambda>i. 0" 0 lve100k_init "[]" st' rows'] c0 c1 c2
    have "WHITE_HOLE_BURST \<notin> set (rec_anomaly (rows' ! 0))"
      by blast
    with c1 first show ?thesis by blast
  qed
  have c: "\<exists>s' rs'. lve_run (\<lambda>i. 0) (Suc 0) = Inr (s', rs') \<and>
      WHITE_HOLE_BURST \<notin> set (rec_anomaly (rs' ! 0)) \<and>
      M_PLANCK_CORE < M_new_of M_initial"
  proof -
    have l0: "lve_run (\<lambda>i. 0) 0 = Inr (lve_init, [])" by simp
    obtain s' rs' where l1: "lve_run (\<lambda>i. 0) (Suc 0) = Inr (s', rs')"
      using lve_run_total [of "\<lambda>i. 0" "Suc 0"] by blast
    have l2: "0 < CYCLES" by (simp add: CYCLES_def)
    from burst_tag_condition
      [of "\<lambda>i. 0" 0 _ _ _ _ lve_init "[]" s' rs'] l0 l1 l2
    have "WHITE_HOLE_BURST \<notin> set (rec_anomaly (rs' ! 0))"
      by blast
    with l1 first show ?thesis by blast
  qed
  from a b c show ?thesis by (intro conjI)
qed

section \<open>The latch of latent_vacuum_engine.py\<close>





end
